theory Spec2Isabelle
  imports Main "HOL-Library.AList"
begin

section \<open>JavaScript values used by the voting code\<close>

text \<open>
  Strings are ASCII strings (wallet addresses, proposal ids, decimal option numbers).
  \<open>toLowerCase\<close> maps the letters A to Z to a to z and leaves every other character.
\<close>

definition lower_char :: "char \<Rightarrow> char" where
  "lower_char c =
     (case map_of (zip ''ABCDEFGHIJKLMNOPQRSTUVWXYZ'' ''abcdefghijklmnopqrstuvwxyz'') c of
        Some l \<Rightarrow> l
      | None \<Rightarrow> c)"

definition toLowerCase :: "string \<Rightarrow> string" where
  "toLowerCase s = map lower_char s"

text \<open>
  A JavaScript number that holds an integer or \<open>NaN\<close> (what \<open>parseInt\<close> returns).
  Integers are taken in the range where \<open>toString\<close> prints plain decimal digits and
  \<open>parseInt\<close> reads them back.
\<close>

datatype jsnum = Num int | NaN

function digits :: "nat \<Rightarrow> string" where
  "digits n =
     (if n < 10 then [''0123456789'' ! n]
      else digits (n div 10) @ [''0123456789'' ! (n mod 10)])"
  by pat_completeness auto

termination
  by (relation "measure id") auto

definition number_toString :: "int \<Rightarrow> string" where
  "number_toString n = (if n < 0 then CHR ''-'' # digits (nat (- n)) else digits (nat n))"

definition is_ws :: "char \<Rightarrow> bool" where
  "is_ws c = (c \<in> set [CHR 0x09, CHR 0x0A, CHR 0x0B, CHR 0x0C, CHR 0x0D, CHR '' ''])"

definition digit_value :: "char \<Rightarrow> nat option" where
  "digit_value c =
     map_of (zip ''0123456789abcdef'' [0 ..< 16] @ zip ''ABCDEF'' [10 ..< 16]) c"

fun take_digits :: "nat \<Rightarrow> string \<Rightarrow> nat list" where
  "take_digits radix [] = []"
| "take_digits radix (c # cs) =
     (case digit_value c of
        None \<Rightarrow> []
      | Some d \<Rightarrow> if d < radix then d # take_digits radix cs else [])"

definition digits_value :: "nat \<Rightarrow> nat list \<Rightarrow> nat" where
  "digits_value radix ds = foldl (\<lambda>acc d. acc * radix + d) 0 ds"

definition parse_unsigned :: "string \<Rightarrow> nat option" where
  "parse_unsigned s =
     (let hex = (take 2 s = ''0x'' \<or> take 2 s = ''0X'');
          radix = (if hex then 16 else 10);
          ds = take_digits radix (if hex then drop 2 s else s)
      in if ds = [] then None else Some (digits_value radix ds))"

text \<open>
  \<open>parseInt(s)\<close> with no radix: leading white space is skipped, a sign is read, a
  \<open>0x\<close> prefix selects base 16, and the longest prefix of digits is the value; no digit
  at all gives \<open>NaN\<close>.
\<close>

definition parseInt :: "string \<Rightarrow> jsnum" where
  "parseInt s =
     (case dropWhile is_ws s of
        [] \<Rightarrow> NaN
      | c # cs \<Rightarrow>
          if c = CHR ''-'' then
            (case parse_unsigned cs of None \<Rightarrow> NaN | Some n \<Rightarrow> Num (- int n))
          else if c = CHR ''+'' then
            (case parse_unsigned cs of None \<Rightarrow> NaN | Some n \<Rightarrow> Num (int n))
          else
            (case parse_unsigned (c # cs) of None \<Rightarrow> NaN | Some n \<Rightarrow> Num (int n)))"

text \<open>
  A JavaScript object with string keys is an association list in insertion order;
  \<open>obj[k] = v\<close> is \<open>AList.update k v obj\<close> (an existing key keeps its place),
  \<open>delete obj[k]\<close> is \<open>AList.delete k obj\<close> and \<open>obj[k]\<close> is \<open>map_of obj k\<close>.
  A string value is truthy when it is not empty.
\<close>

definition truthy_lookup :: "('k \<rightharpoonup> string) \<Rightarrow> 'k \<Rightarrow> string option" where
  "truthy_lookup m k = (case m k of None \<Rightarrow> None | Some v \<Rightarrow> if v = [] then None else Some v)"


section \<open>The Redis store\<close>

text \<open>
  The store holds hashes (field to value, as an association list), sets (as lists without
  repetition) and plain strings, each under its key. A key that holds nothing is the empty
  hash, the empty set, or no string. Expiry times are not part of the state.
\<close>

record redis =
  hashes :: "string \<Rightarrow> (string \<times> string) list"
  sets :: "string \<Rightarrow> string list"
  strings :: "string \<Rightarrow> string option"

definition empty_redis :: redis where
  "empty_redis = \<lparr>hashes = (\<lambda>_. []), sets = (\<lambda>_. []), strings = (\<lambda>_. None)\<rparr>"

definition hset :: "redis \<Rightarrow> string \<Rightarrow> (string \<times> string) list \<Rightarrow> redis" where
  "hset r key obj =
     r\<lparr>hashes := (hashes r)(key := fold (\<lambda>(f, v). AList.update f v) obj (hashes r key))\<rparr>"

definition hdel :: "redis \<Rightarrow> string \<Rightarrow> string \<Rightarrow> redis" where
  "hdel r key field = r\<lparr>hashes := (hashes r)(key := AList.delete field (hashes r key))\<rparr>"

definition hget :: "redis \<Rightarrow> string \<Rightarrow> string \<Rightarrow> string option" where
  "hget r key field = map_of (hashes r key) field"

text \<open>The client returns \<open>null\<close> for a hash without fields.\<close>

definition hgetall :: "redis \<Rightarrow> string \<Rightarrow> (string \<times> string) list option" where
  "hgetall r key = (if hashes r key = [] then None else Some (hashes r key))"

definition sadd :: "redis \<Rightarrow> string \<Rightarrow> string list \<Rightarrow> redis" where
  "sadd r key members =
     r\<lparr>sets := (sets r)(key := fold (\<lambda>m ms. if m \<in> set ms then ms else ms @ [m]) members (sets r key))\<rparr>"

definition smembers :: "redis \<Rightarrow> string \<Rightarrow> string list" where
  "smembers r key = sets r key"

definition scard :: "redis \<Rightarrow> string \<Rightarrow> nat" where
  "scard r key = length (sets r key)"

definition get :: "redis \<Rightarrow> string \<Rightarrow> string option" where
  "get r key = strings r key"

definition set_string :: "redis \<Rightarrow> string \<Rightarrow> string \<Rightarrow> redis" where
  "set_string r key v = r\<lparr>strings := (strings r)(key := Some v)\<rparr>"

definition setex :: "redis \<Rightarrow> string \<Rightarrow> nat \<Rightarrow> string \<Rightarrow> redis" where
  "setex r key ttl v = set_string r key v"

definition del :: "redis \<Rightarrow> string \<Rightarrow> redis" where
  "del r key =
     r\<lparr>hashes := (hashes r)(key := []), sets := (sets r)(key := []),
       strings := (strings r)(key := None)\<rparr>"


section \<open>Key names (REDIS-KEYS)\<close>

definition votes_key :: "string \<Rightarrow> string" where
  "votes_key proposalId = ''proposal:'' @ proposalId @ '':votes''"

definition delegations_key :: "string \<Rightarrow> string" where
  "delegations_key proposalId = ''proposal:'' @ proposalId @ '':delegations''"

definition vote_weights_key :: "string \<Rightarrow> string" where
  "vote_weights_key proposalId = ''proposal:'' @ proposalId @ '':vote_weights''"

definition delegation_chains_key :: "string \<Rightarrow> string" where
  "delegation_chains_key proposalId = ''proposal:'' @ proposalId @ '':chains''"

definition status_key :: "string \<Rightarrow> string" where
  "status_key proposalId = ''proposal:'' @ proposalId @ '':status''"

definition lock_key :: "string \<Rightarrow> string" where
  "lock_key proposalId = ''proposal:'' @ proposalId @ '':lock''"

definition deadline_key :: "string \<Rightarrow> string" where
  "deadline_key proposalId = ''proposal:'' @ proposalId @ '':deadline''"

definition participants_key :: "string \<Rightarrow> string" where
  "participants_key proposalId = ''proposal:'' @ proposalId @ '':participants''"

definition cooldown_key :: "string \<Rightarrow> string \<Rightarrow> string" where
  "cooldown_key userWallet proposalId = ''cooldown:'' @ userWallet @ '':'' @ proposalId"

definition allForProposal :: "string \<Rightarrow> string list" where
  "allForProposal proposalId =
     [''proposal:'' @ proposalId @ '':votes'',
      ''proposal:'' @ proposalId @ '':delegations'',
      ''proposal:'' @ proposalId @ '':vote_weights'',
      ''proposal:'' @ proposalId @ '':delegation_chains'',
      ''proposal:'' @ proposalId @ '':status'',
      ''proposal:'' @ proposalId @ '':lock'',
      ''proposal:'' @ proposalId @ '':deadline'',
      ''proposal:'' @ proposalId @ '':participants'']"

definition RATE_LIMIT :: nat where
  "RATE_LIMIT = 60"


section \<open>RedisVotingOps\<close>

definition castVote :: "redis \<Rightarrow> string \<Rightarrow> string \<Rightarrow> int \<Rightarrow> redis" where
  "castVote r proposalId userWallet optionNumber =
     (let walletKey = toLowerCase userWallet;
          optionValue = number_toString optionNumber;
          r1 = hset r (votes_key proposalId) [(walletKey, optionValue)];
          r2 = sadd r1 (participants_key proposalId) [walletKey]
      in hdel r2 (delegations_key proposalId) walletKey)"

definition setDelegation :: "redis \<Rightarrow> string \<Rightarrow> string \<Rightarrow> string \<Rightarrow> redis" where
  "setDelegation r proposalId delegatorWallet delegateWallet =
     (let delegatorKey = toLowerCase delegatorWallet;
          delegateKey = toLowerCase delegateWallet;
          r1 = hset r (delegations_key proposalId) [(delegatorKey, delegateKey)];
          r2 = sadd r1 (participants_key proposalId) [delegatorKey]
      in hdel r2 (votes_key proposalId) delegatorKey)"

definition removeVote :: "redis \<Rightarrow> string \<Rightarrow> string \<Rightarrow> redis" where
  "removeVote r proposalId userWallet = hdel r (votes_key proposalId) (toLowerCase userWallet)"

definition removeDelegation :: "redis \<Rightarrow> string \<Rightarrow> string \<Rightarrow> redis" where
  "removeDelegation r proposalId userWallet =
     hdel r (delegations_key proposalId) (toLowerCase userWallet)"

text \<open>\<open>getUserVote\<close> returns \<open>null\<close> (here \<open>None\<close>) for a missing, empty or non-numeric value.\<close>

definition getUserVote :: "redis \<Rightarrow> string \<Rightarrow> string \<Rightarrow> int option" where
  "getUserVote r proposalId userWallet =
     (case hget r (votes_key proposalId) (toLowerCase userWallet) of
        None \<Rightarrow> None
      | Some vote \<Rightarrow>
          if vote = [] then None
          else (case parseInt vote of NaN \<Rightarrow> None | Num parsed \<Rightarrow> Some parsed))"

definition getUserDelegation :: "redis \<Rightarrow> string \<Rightarrow> string \<Rightarrow> string option" where
  "getUserDelegation r proposalId userWallet =
     (case hget r (delegations_key proposalId) (toLowerCase userWallet) of
        None \<Rightarrow> None
      | Some delegation \<Rightarrow> if delegation = [] then None else Some delegation)"

record user_status =
  has_voted :: bool
  voted_option :: "int option"
  has_delegated :: bool
  delegate_wallet :: "string option"

definition getUserStatus :: "redis \<Rightarrow> string \<Rightarrow> string \<Rightarrow> user_status" where
  "getUserStatus r proposalId userWallet =
     (let vote = getUserVote r proposalId userWallet;
          delegation = getUserDelegation r proposalId userWallet
      in \<lparr>has_voted = (vote \<noteq> None), voted_option = vote,
          has_delegated = (delegation \<noteq> None), delegate_wallet = delegation\<rparr>)"

definition checkCooldown :: "redis \<Rightarrow> string \<Rightarrow> string \<Rightarrow> bool" where
  "checkCooldown r userWallet proposalId =
     (get r (cooldown_key (toLowerCase userWallet) proposalId) \<noteq> None)"

definition setCooldown :: "redis \<Rightarrow> string \<Rightarrow> string \<Rightarrow> string \<Rightarrow> redis" where
  "setCooldown r userWallet proposalId now =
     setex r (cooldown_key (toLowerCase userWallet) proposalId) RATE_LIMIT now"

definition getAllVotes :: "redis \<Rightarrow> string \<Rightarrow> (string \<times> jsnum) list" where
  "getAllVotes r proposalId =
     (let votes = (case hgetall r (votes_key proposalId) of None \<Rightarrow> [] | Some h \<Rightarrow> h)
      in fold (\<lambda>(wallet, option). AList.update (toLowerCase wallet) (parseInt option)) votes [])"

definition getAllDelegations :: "redis \<Rightarrow> string \<Rightarrow> (string \<times> string) list" where
  "getAllDelegations r proposalId =
     (let delegations =
            (case hgetall r (delegations_key proposalId) of None \<Rightarrow> [] | Some h \<Rightarrow> h)
      in fold (\<lambda>(delegator, delegate). AList.update (toLowerCase delegator) (toLowerCase delegate))
           delegations [])"

definition getAllParticipants :: "redis \<Rightarrow> string \<Rightarrow> string list" where
  "getAllParticipants r proposalId = smembers r (participants_key proposalId)"

definition deleteProposalData :: "redis \<Rightarrow> string \<Rightarrow> redis" where
  "deleteProposalData r proposalId = fold (\<lambda>key r'. del r' key) (allForProposal proposalId) r"


section \<open>FinalVoteEngine: weighted tally\<close>

record proposal_option =
  option_number :: int
  option_text :: string

text \<open>
  The tallies are an object keyed by option number. \<open>Object.entries\<close> lists the keys that
  are array indices (integers from 0 to \<open>2^32 - 2\<close>) first, in ascending order, and then
  the other keys in insertion order. Reading a key back with \<open>parseInt\<close> gives the number.
\<close>

definition is_index_key :: "jsnum \<Rightarrow> bool" where
  "is_index_key k = (case k of Num n \<Rightarrow> 0 \<le> n \<and> n < 4294967295 | NaN \<Rightarrow> False)"

definition index_of_key :: "jsnum \<Rightarrow> int" where
  "index_of_key k = (case k of Num n \<Rightarrow> n | NaN \<Rightarrow> 0)"

definition object_entries :: "(jsnum \<times> 'v) list \<Rightarrow> (jsnum \<times> 'v) list" where
  "object_entries obj =
     sort_key (\<lambda>(k, v). index_of_key k) (filter (\<lambda>(k, v). is_index_key k) obj) @
     filter (\<lambda>(k, v). \<not> is_index_key k) obj"

record weighted_results =
  optionTallies :: "(jsnum \<times> nat) list"
  voterBreakdown :: "(string \<times> nat \<times> jsnum) list"
  totalVotingPower :: nat
  totalVotesCast :: nat
  totalUniqueVoters :: nat
  winningOption :: "jsnum option"

definition init_tallies :: "proposal_option list \<Rightarrow> (jsnum \<times> nat) list" where
  "init_tallies proposalOptions =
     fold (\<lambda>option tallies. AList.update (Num (option_number option)) 0 tallies)
       proposalOptions []"

text \<open>\<open>votingPowers[wallet] || 1\<close>: a missing wallet and a power of 0 both count as 1.\<close>

definition power_or_one :: "(string \<times> nat) list \<Rightarrow> string \<Rightarrow> nat" where
  "power_or_one votingPowers normalizedWallet =
     (case map_of votingPowers normalizedWallet of
        None \<Rightarrow> 1
      | Some pw \<Rightarrow> if pw = 0 then 1 else pw)"

definition process_vote ::
  "(string \<times> nat) list \<Rightarrow> string \<times> jsnum \<Rightarrow>
   (jsnum \<times> nat) list \<times> (string \<times> nat \<times> jsnum) list \<times> nat \<times> nat \<Rightarrow>
   (jsnum \<times> nat) list \<times> (string \<times> nat \<times> jsnum) list \<times> nat \<times> nat" where
  "process_vote votingPowers vote state =
     (case (vote, state) of
        ((voterWallet, votedOption), (tallies, breakdown, cast, voters)) \<Rightarrow>
          let normalizedWallet = toLowerCase voterWallet;
              votingPower = power_or_one votingPowers normalizedWallet;
              tallies1 = (case map_of tallies votedOption of
                            None \<Rightarrow> AList.update votedOption 0 tallies
                          | Some t \<Rightarrow> if t = 0 then AList.update votedOption 0 tallies
                                      else tallies);
              tallies2 = (case map_of tallies1 votedOption of
                            None \<Rightarrow> tallies1
                          | Some t \<Rightarrow> AList.update votedOption (t + votingPower) tallies1)
          in (tallies2,
              AList.update normalizedWallet (votingPower, votedOption) breakdown,
              cast + votingPower,
              voters + 1))"

definition find_max :: "(jsnum \<times> nat) list \<Rightarrow> nat \<times> jsnum option" where
  "find_max entries =
     fold (\<lambda>(option, votes) (maxVotes, winning).
             if votes > maxVotes then (votes, Some option) else (maxVotes, winning))
       entries (0, None)"

definition pick_winner :: "(jsnum \<times> nat) list \<Rightarrow> jsnum option" where
  "pick_winner tallies =
     (case find_max (object_entries tallies) of
        (maxVotes, winning) \<Rightarrow>
          let maxVoteOptions =
                map fst (filter (\<lambda>(option, votes). votes = maxVotes \<and> votes > 0)
                           (object_entries tallies))
          in if length maxVoteOptions > 1 then None
             else if maxVotes = 0 then None
             else winning)"

definition calculateWeightedResults ::
  "(string \<times> nat) list \<Rightarrow> (string \<times> jsnum) list \<Rightarrow> proposal_option list \<Rightarrow>
   weighted_results" where
  "calculateWeightedResults votingPowers votes proposalOptions =
     (case fold (process_vote votingPowers) votes (init_tallies proposalOptions, [], 0, 0) of
        (tallies, breakdown, cast, voters) \<Rightarrow>
          \<lparr>optionTallies = tallies,
           voterBreakdown = breakdown,
           totalVotingPower = sum_list (map snd votingPowers),
           totalVotesCast = cast,
           totalUniqueVoters = voters,
           winningOption = pick_winner tallies\<rparr>)"

text \<open>The power that the votes for one option carry, and the power of all votes.\<close>

definition cast_power :: "(string \<times> nat) list \<Rightarrow> (string \<times> jsnum) list \<Rightarrow> nat" where
  "cast_power votingPowers votes =
     sum_list (map (\<lambda>(wallet, voted). power_or_one votingPowers (toLowerCase wallet)) votes)"

definition cast_power_for ::
  "(string \<times> nat) list \<Rightarrow> (string \<times> jsnum) list \<Rightarrow> jsnum \<Rightarrow> nat" where
  "cast_power_for votingPowers votes opt =
     cast_power votingPowers (filter (\<lambda>(wallet, voted). voted = opt) votes)"


text \<open>The tally of an option in a tallies object; an option without an entry has tally 0.\<close>

definition tally :: "(jsnum \<times> nat) list \<Rightarrow> jsnum \<Rightarrow> nat" where
  "tally tallies opt = (case map_of tallies opt of None \<Rightarrow> 0 | Some t \<Rightarrow> t)"


section \<open>Cycle detection (detectCyclesDFS)\<close>

text \<open>
  The reason of a result is kept as a constructor: the message text of a circular
  delegation is the joined path that the constructor carries. The store is always
  reachable here, so the branch that reports a failed detection is not part of the model.
\<close>

datatype cycle_reason =
    CannotDelegateToYourself
  | CircularDelegation "string list"
  | ChainTooLong

record cycle_check =
  hasCycle :: bool
  cyclePath :: "string list option"
  reason :: "cycle_reason option"

definition simulatedDelegations ::
  "redis \<Rightarrow> string \<Rightarrow> string \<Rightarrow> string \<Rightarrow> (string \<times> string) list" where
  "simulatedDelegations r proposalId delegator target =
     AList.update delegator target (getAllDelegations r proposalId)"

text \<open>
  The \<open>while (maxHops-- > 0)\<close> loop. \<open>Inl\<close> is the \<open>return\<close> inside the loop; \<open>Inr\<close>
  carries the value of \<open>maxHops\<close> with which the loop was left (by \<open>break\<close> or by its
  condition, both after the decrement).
\<close>

function dfs_loop ::
  "(string \<rightharpoonup> string) \<Rightarrow> string \<Rightarrow> string set \<Rightarrow> string list \<Rightarrow> string \<Rightarrow> int \<Rightarrow>
   cycle_check + int" where
  "dfs_loop simulated delegator visited path current maxHops =
     (if maxHops > 0 then
        (if current \<in> visited then Inr (maxHops - 1)
         else
           (case truthy_lookup simulated current of
              None \<Rightarrow> Inr (maxHops - 1)
            | Some nextWallet \<Rightarrow>
                if nextWallet = delegator then
                  Inl \<lparr>hasCycle = True, cyclePath = Some (path @ [nextWallet]),
                       reason = Some (CircularDelegation (path @ [nextWallet]))\<rparr>
                else dfs_loop simulated delegator (insert current visited)
                       (path @ [nextWallet]) nextWallet (maxHops - 1)))
      else Inr (maxHops - 1))"
  by pat_completeness auto

termination
  by (relation "measure (\<lambda>(simulated, delegator, visited, path, current, maxHops). nat maxHops)")
    auto

declare dfs_loop.simps [simp del]

definition detectCyclesDFS :: "redis \<Rightarrow> string \<Rightarrow> string \<Rightarrow> string \<Rightarrow> cycle_check" where
  "detectCyclesDFS r proposalId delegatorWallet targetWallet =
     (let delegator = toLowerCase delegatorWallet;
          target = toLowerCase targetWallet
      in if delegator = target then
           \<lparr>hasCycle = True, cyclePath = Some [delegator],
            reason = Some CannotDelegateToYourself\<rparr>
         else
           (case dfs_loop (map_of (simulatedDelegations r proposalId delegator target))
                   delegator {} [target] target 100 of
              Inl found \<Rightarrow> found
            | Inr maxHops \<Rightarrow>
                if maxHops \<le> 0 then
                  \<lparr>hasCycle = True, cyclePath = None, reason = Some ChainTooLong\<rparr>
                else \<lparr>hasCycle = False, cyclePath = None, reason = None\<rparr>))"


section \<open>The delegate route\<close>

text \<open>
  \<open>POST /:id/delegate\<close>, as far as it touches the store. What the handler learns from
  outside the store is given in the request: whether the proposal id and the target id are
  well formed, the failure status of the access validation (if any), and the wallet of
  the target user (if found). The result is the HTTP status and the store afterwards.
\<close>

record delegate_request =
  proposal_id_ok :: bool
  target_user_ok :: bool
  access_failure :: "nat option"
  target_wallet :: "string option"

definition delegate_route ::
  "redis \<Rightarrow> string \<Rightarrow> string \<Rightarrow> delegate_request \<Rightarrow> string \<Rightarrow> nat \<times> redis" where
  "delegate_route r proposalId userWallet req now =
     (if \<not> proposal_id_ok req then (400, r)
      else if \<not> target_user_ok req then (400, r)
      else if checkCooldown r userWallet proposalId then (429, r)
      else
        (case access_failure req of
           Some status \<Rightarrow> (status, r)
         | None \<Rightarrow>
             (case target_wallet req of
                None \<Rightarrow> (404, r)
              | Some targetWallet \<Rightarrow>
                  if hasCycle (detectCyclesDFS r proposalId userWallet targetWallet)
                  then (400, r)
                  else
                    (let r1 = setDelegation r proposalId userWallet targetWallet;
                         r2 = setCooldown r1 userWallet proposalId now
                     in (200, r2)))))"

section \<open>Chains of delegations\<close>

text \<open>
  A chain: \<open>chain_from m x ys\<close> holds when \<open>ys\<close> lists the wallets reached from \<open>x\<close> by
  following one delegation after the other in \<open>m\<close>.
\<close>

primrec chain_from :: "(string \<rightharpoonup> string) \<Rightarrow> string \<Rightarrow> string list \<Rightarrow> bool" where
  "chain_from m x [] = True"
| "chain_from m x (y # ys) = (truthy_lookup m x = Some y \<and> chain_from m y ys)"


section \<open>DelegationEngine: resolving chains\<close>

definition MAX_CHAIN_LENGTH :: nat where
  "MAX_CHAIN_LENGTH = 100"

text \<open>
  The loop of \<open>resolveChainForUser\<close>; it returns \<open>current\<close> and \<open>path\<close> as they are when
  the loop is left.
\<close>

function resolve_loop ::
  "(string \<rightharpoonup> string) \<Rightarrow> string list \<Rightarrow> string set \<Rightarrow> string \<Rightarrow> nat \<Rightarrow>
   string \<times> string list" where
  "resolve_loop delegs path visited current steps =
     (if steps < MAX_CHAIN_LENGTH then
        (case truthy_lookup delegs current of
           None \<Rightarrow> (current, path)
         | Some nextDelegate \<Rightarrow>
             if nextDelegate \<in> visited then (current, path)
             else resolve_loop delegs (path @ [nextDelegate]) (insert nextDelegate visited)
                    nextDelegate (steps + 1))
      else (current, path))"
  by pat_completeness auto

termination
  by (relation "measure (\<lambda>(delegs, path, visited, current, steps). MAX_CHAIN_LENGTH - steps)")
    auto

declare resolve_loop.simps [simp del]

record chain_result =
  finalDelegate :: string
  path :: "string list"
  chain_length :: nat

definition resolveChainForUser :: "string \<Rightarrow> (string \<rightharpoonup> string) \<Rightarrow> chain_result" where
  "resolveChainForUser startWallet delegs =
     (case resolve_loop delegs [startWallet] {startWallet} startWallet 0 of
        (current, walked) \<Rightarrow>
          \<lparr>finalDelegate = current, path = walked, chain_length = length walked\<rparr>)"

text \<open>The delegation graph: who delegates to whom, as a relation.\<close>

definition delegation_edges :: "(string \<rightharpoonup> string) \<Rightarrow> (string \<times> string) set" where
  "delegation_edges delegs = {(x, y). truthy_lookup delegs x = Some y}"

text \<open>A chain of 101 delegations: wallet \<open>a\<close> to \<open>aa\<close>, \<open>aa\<close> to \<open>aaa\<close>, and so on.\<close>

definition wallet_name :: "nat \<Rightarrow> string" where
  "wallet_name n = replicate (Suc n) CHR ''a''"

definition long_chain :: "(string \<times> string) list" where
  "long_chain = map (\<lambda>n. (wallet_name n, wallet_name (Suc n))) [0 ..< 101]"


section \<open>DelegationEngine: graph, bulk resolution and voting powers\<close>

record delegation_graph =
  delegations :: "(string \<times> string) list"
  incomingEdges :: "(string \<times> string list) list"
  graph_size :: nat









section \<open>The durable store\<close>

text \<open>
  The audit tables hold one row per proposal id (writes are upserts on the proposal id).
  The store accepts every write; a write that the database refuses is only logged by the
  code and is not part of the model. An upsert sets the columns that the code names and
  leaves the other columns of an existing row as they are.
\<close>

record resolution_metadata =
  totalParticipants :: nat
  directVoters :: nat
  delegators :: nat
  longestChain :: nat
  res_computationTimeMs :: nat

record resolution =
  res_proposalId :: string
  res_computedAt :: string
  res_delegationResolution :: "(string \<times> string) list"
  res_votingPowers :: "(string \<times> nat) list"
  res_metadata :: resolution_metadata
  res_auditTrail :: "(string \<times> string list \<times> nat) list"

datatype resolution_data = ResolutionData resolution | ResolutionError string string

record resolution_row =
  resolution_data :: resolution_data
  res_computation_time_ms :: nat
  total_participants :: nat
  direct_voters :: nat
  delegators_count :: nat
  longest_chain_length :: nat
  res_status :: string
  res_error_message :: "string option"

record results_metadata =
  md_totalVotingPower :: nat
  md_totalVotesCast :: nat
  md_totalUniqueVoters :: nat
  md_winningOption :: "jsnum option"
  md_computationTimeMs :: nat

record proposal_info =
  info_title :: string
  totalOptions :: nat
  votingDeadline :: string

record final_results =
  fr_proposalId :: string
  fr_computedAt :: string
  optionResults :: "(jsnum \<times> nat) list"
  fr_metadata :: results_metadata
  fr_voterBreakdown :: "(string \<times> nat \<times> jsnum) list"
  proposalInfo :: proposal_info

datatype vote_results = VoteResults final_results | VoteError string string

record tally_row =
  vote_results :: vote_results
  computation_time_ms :: nat
  total_voting_power :: nat
  total_votes_cast :: nat
  winning_option :: "jsnum option"
  status :: string
  error_message :: "string option"

record proposal =
  title :: string
  voting_deadline :: string
  options :: "proposal_option list"

text \<open>
  The data of a snapshot row is a JSON value; the shapes that occur are strings, numbers,
  \<open>null\<close>, objects of strings (a hash), arrays of strings and objects of such values.
\<close>

datatype jsval =
    VNull
  | VStr string
  | VNum nat
  | VHash "(string \<times> string) list"
  | VList "string list"
  | VObj "(string \<times> jsval) list"

record snapshot_row =
  snapshot_id :: string
  snap_proposal_id :: string
  redis_data :: jsval
  snapshot_type :: string
  snapshot_at :: nat

record database =
  delegation_resolution_audit :: "string \<Rightarrow> resolution_row option"
  final_vote_results_audit :: "string \<Rightarrow> tally_row option"
  redis_snapshots :: "snapshot_row list"
  proposals :: "string \<Rightarrow> proposal option"

definition empty_database :: database where
  "empty_database =
     \<lparr>delegation_resolution_audit = (\<lambda>_. None), final_vote_results_audit = (\<lambda>_. None),
      redis_snapshots = [], proposals = (\<lambda>_. None)\<rparr>"





text \<open>Scenario 1 of the specification: A delegates to B, B to C, C votes 1, D votes 2.\<close>

definition scenario_store :: redis where
  "scenario_store =
     castVote (castVote (setDelegation (setDelegation empty_redis ''p1'' ''0xA'' ''0xB'')
       ''p1'' ''0xB'' ''0xC'') ''p1'' ''0xC'' 1) ''p1'' ''0xD'' 2"


section \<open>FinalVoteEngine: final results\<close>

text \<open>
  \<open>loadVotingPowers\<close> reads the resolution row of the proposal with status \<open>completed\<close>;
  it returns \<open>null\<close> when there is no such row or the row holds no voting powers.
\<close>

definition loadVotingPowers :: "database \<Rightarrow> string \<Rightarrow> (string \<times> nat) list option" where
  "loadVotingPowers db proposalId =
     (case delegation_resolution_audit db proposalId of
        None \<Rightarrow> None
      | Some row \<Rightarrow>
          if res_status row = ''completed'' then
            (case resolution_data row of
               ResolutionData res \<Rightarrow> Some (res_votingPowers res)
             | ResolutionError msg pid \<Rightarrow> None)
          else None)"

text \<open>
  \<open>proposalDb.getById\<close> throws the error of the query when the proposal row is missing;
  the text is the one the database client gives for a missing single row.
\<close>

definition getById :: "database \<Rightarrow> string \<Rightarrow> string + proposal" where
  "getById db proposalId =
     (case proposals db proposalId of
        None \<Rightarrow> Inl ''JSON object requested, multiple (or no) rows returned''
      | Some found \<Rightarrow> Inr found)"

definition saveResultsAudit :: "database \<Rightarrow> final_results \<Rightarrow> database" where
  "saveResultsAudit db results =
     db\<lparr>final_vote_results_audit := (final_vote_results_audit db)
          (fr_proposalId results \<mapsto>
             \<lparr>vote_results = VoteResults results,
              computation_time_ms = md_computationTimeMs (fr_metadata results),
              total_voting_power = md_totalVotingPower (fr_metadata results),
              total_votes_cast = md_totalVotesCast (fr_metadata results),
              winning_option = md_winningOption (fr_metadata results),
              status = ''completed'',
              error_message =
                (case final_vote_results_audit db (fr_proposalId results) of
                   None \<Rightarrow> None
                 | Some old \<Rightarrow> error_message old)\<rparr>)\<rparr>"

definition saveErrorAudit :: "database \<Rightarrow> string \<Rightarrow> string \<Rightarrow> nat \<Rightarrow> database" where
  "saveErrorAudit db proposalId errorMessage computationTime =
     db\<lparr>final_vote_results_audit := (final_vote_results_audit db)
          (proposalId \<mapsto>
             \<lparr>vote_results = VoteError errorMessage proposalId,
              computation_time_ms = computationTime,
              total_voting_power = 0,
              total_votes_cast = 0,
              winning_option = None,
              status = ''error'',
              error_message = Some errorMessage\<rparr>)\<rparr>"

datatype tally_result = TallySuccess final_results | TallyFailure string nat

text \<open>
  \<open>calculateFinalResults\<close>: each \<open>throw\<close> inside the \<open>try\<close> block goes to the \<open>catch\<close>
  branch, which saves the error record and returns the failure.
\<close>

definition calculateFinalResults ::
  "database \<Rightarrow> redis \<Rightarrow> string \<Rightarrow> string \<Rightarrow> nat \<Rightarrow> tally_result \<times> database" where
  "calculateFinalResults db r proposalId now elapsed =
     (case loadVotingPowers db proposalId of
        None \<Rightarrow>
          (TallyFailure ''No delegation resolution found - cannot proceed with vote counting''
             elapsed,
           saveErrorAudit db proposalId
             ''No delegation resolution found - cannot proceed with vote counting'' elapsed)
      | Some powers \<Rightarrow>
          (let votes = getAllVotes r proposalId
           in case getById db proposalId of
                Inl msg \<Rightarrow> (TallyFailure msg elapsed, saveErrorAudit db proposalId msg elapsed)
              | Inr found \<Rightarrow>
                  (let results = calculateWeightedResults powers votes (options found);
                       finalResults =
                         \<lparr>fr_proposalId = proposalId,
                          fr_computedAt = now,
                          optionResults = optionTallies results,
                          fr_metadata =
                            \<lparr>md_totalVotingPower = totalVotingPower results,
                             md_totalVotesCast = totalVotesCast results,
                             md_totalUniqueVoters = totalUniqueVoters results,
                             md_winningOption = winningOption results,
                             md_computationTimeMs = elapsed\<rparr>,
                          fr_voterBreakdown = voterBreakdown results,
                          proposalInfo =
                            \<lparr>info_title = title found,
                             totalOptions = length (options found),
                             votingDeadline = voting_deadline found\<rparr>\<rparr>
                   in (TallySuccess finalResults, saveResultsAudit db finalResults))))"

definition has_completed_resolution :: "database \<Rightarrow> string \<Rightarrow> bool" where
  "has_completed_resolution db proposalId =
     (case delegation_resolution_audit db proposalId of
        None \<Rightarrow> False
      | Some row \<Rightarrow> res_status row = ''completed'')"

definition scenario_database :: database where
  "scenario_database =
     empty_database\<lparr>proposals := (proposals empty_database)
       (''p1'' \<mapsto> \<lparr>title = ''Budget'', voting_deadline = ''2025-01-01T00:00:00.000Z'',
                   options = [\<lparr>option_number = 1, option_text = ''yes''\<rparr>,
                              \<lparr>option_number = 2, option_text = ''no''\<rparr>]\<rparr>)\<rparr>"


section \<open>RedisBackupManager: snapshots\<close>

text \<open>
  Property access and truthiness on the JSON value of a snapshot row: reading a property
  that is not there gives \<open>undefined\<close> (here \<open>None\<close>).
\<close>

definition js_get :: "jsval \<Rightarrow> string \<Rightarrow> jsval option" where
  "js_get v key =
     (case v of
        VObj props \<Rightarrow> map_of props key
      | VHash h \<Rightarrow> map_option VStr (map_of h key)
      | VNull \<Rightarrow> None
      | VStr s \<Rightarrow> None
      | VNum n \<Rightarrow> None
      | VList xs \<Rightarrow> None)"

definition js_truthy :: "jsval option \<Rightarrow> bool" where
  "js_truthy v =
     (case v of
        None \<Rightarrow> False
      | Some VNull \<Rightarrow> False
      | Some (VStr s) \<Rightarrow> s \<noteq> []
      | Some (VNum n) \<Rightarrow> n \<noteq> 0
      | Some (VHash h) \<Rightarrow> True
      | Some (VList xs) \<Rightarrow> True
      | Some (VObj props) \<Rightarrow> True)"

definition js_string_or_null :: "string option \<Rightarrow> jsval" where
  "js_string_or_null v = (case v of None \<Rightarrow> VNull | Some s \<Rightarrow> VStr s)"

datatype snapshot_result = SnapshotSuccess string jsval | SnapshotFailure string

text \<open>
  \<open>createSnapshot\<close>: \<open>now\<close> is the time stamp written into the data; the database
  chooses the id \<open>new_id\<close> and the time \<open>taken_at\<close> of the new row.
\<close>

definition createSnapshot ::
  "database \<Rightarrow> redis \<Rightarrow> string \<Rightarrow> string \<Rightarrow> string \<Rightarrow> string \<Rightarrow> nat \<Rightarrow>
   snapshot_result \<times> database" where
  "createSnapshot db r proposalId snapshotType now new_id taken_at =
     (let votesData = (case hgetall r (votes_key proposalId) of None \<Rightarrow> [] | Some h \<Rightarrow> h);
          delegationsData =
            (case hgetall r (delegations_key proposalId) of None \<Rightarrow> [] | Some h \<Rightarrow> h);
          participantsData = smembers r (participants_key proposalId);
          snapshotData =
            VObj [(''timestamp'', VStr now),
                  (''votes'', VHash votesData),
                  (''delegations'', VHash delegationsData),
                  (''participants'', VList participantsData),
                  (''status'', js_string_or_null (get r (status_key proposalId))),
                  (''deadline'', js_string_or_null (get r (deadline_key proposalId))),
                  (''vote_count'', VNum (length votesData)),
                  (''delegation_count'', VNum (length delegationsData)),
                  (''participant_count'', VNum (length participantsData))];
          row = \<lparr>snapshot_id = new_id, snap_proposal_id = proposalId,
                 redis_data = snapshotData, snapshot_type = snapshotType,
                 snapshot_at = taken_at\<rparr>
      in (SnapshotSuccess new_id snapshotData,
          db\<lparr>redis_snapshots := redis_snapshots db @ [row]\<rparr>))"

text \<open>
  The query of \<open>restoreFromSnapshot\<close>: the rows of the proposal, narrowed to the given id
  or to the latest row; \<open>single()\<close> gives a row only when exactly one is left.
\<close>

definition latest_row :: "snapshot_row list \<Rightarrow> snapshot_row list" where
  "latest_row rows =
     (case rows of
        [] \<Rightarrow> []
      | first # others \<Rightarrow>
          [fold (\<lambda>row best. if snapshot_at row > snapshot_at best then row else best)
             others first])"

definition find_snapshot :: "database \<Rightarrow> string \<Rightarrow> string option \<Rightarrow> snapshot_row option" where
  "find_snapshot db proposalId snapshotId =
     (let rows = filter (\<lambda>row. snap_proposal_id row = proposalId) (redis_snapshots db);
          chosen = (case snapshotId of
                      None \<Rightarrow> latest_row rows
                    | Some wanted \<Rightarrow>
                        if wanted = [] then latest_row rows
                        else filter (\<lambda>row. snapshot_id row = wanted) rows)
      in case chosen of [row] \<Rightarrow> Some row | _ \<Rightarrow> None)"

datatype restore_result = RestoreSuccess string string "jsval option" | RestoreFailure string

text \<open>
  The batched write of \<open>restoreFromSnapshot\<close>, applied in order. Votes and delegations are
  written when the data holds a hash with at least one field, participants when it holds a
  list with at least one member, status and deadline when they are non-empty strings.
\<close>

definition restore_pipeline :: "redis \<Rightarrow> string \<Rightarrow> jsval \<Rightarrow> redis" where
  "restore_pipeline r proposalId snap =
     (let r0 = fold (\<lambda>key store. del store key) (allForProposal proposalId) r;
          r1 = (case js_get snap ''votes'' of
                  Some (VHash h) \<Rightarrow> if h \<noteq> [] then hset r0 (votes_key proposalId) h else r0
                | _ \<Rightarrow> r0);
          r2 = (case js_get snap ''delegations'' of
                  Some (VHash h) \<Rightarrow> if h \<noteq> [] then hset r1 (delegations_key proposalId) h else r1
                | _ \<Rightarrow> r1);
          r3 = (case js_get snap ''participants'' of
                  Some (VList ms) \<Rightarrow>
                    if ms \<noteq> [] then sadd r2 (participants_key proposalId) ms else r2
                | _ \<Rightarrow> r2);
          r4 = (case js_get snap ''status'' of
                  Some (VStr s) \<Rightarrow> if s \<noteq> [] then set_string r3 (status_key proposalId) s else r3
                | _ \<Rightarrow> r3)
      in (case js_get snap ''deadline'' of
            Some (VStr s) \<Rightarrow> if s \<noteq> [] then set_string r4 (deadline_key proposalId) s else r4
          | _ \<Rightarrow> r4))"

definition restoreFromSnapshot ::
  "database \<Rightarrow> redis \<Rightarrow> string \<Rightarrow> string option \<Rightarrow> restore_result \<times> redis" where
  "restoreFromSnapshot db r proposalId snapshotId =
     (case find_snapshot db proposalId snapshotId of
        None \<Rightarrow> (RestoreFailure (''No snapshot found for proposal '' @ proposalId), r)
      | Some snapshot \<Rightarrow>
          (let snapshotData = redis_data snapshot
           in if \<not> js_truthy (js_get snapshotData ''data'') then
                (RestoreFailure ''Invalid snapshot data structure'', r)
              else
                (case js_get snapshotData ''data'' of
                   None \<Rightarrow> (RestoreFailure ''Invalid snapshot data structure'', r)
                 | Some snap \<Rightarrow>
                     (RestoreSuccess (snapshot_id snapshot) (snapshot_type snapshot)
                        (js_get snap ''metadata''),
                      restore_pipeline r proposalId snap))))"


section \<open>Facts about the store\<close>

lemma votes_key_neq_delegations_key: "votes_key p \<noteq> delegations_key q"
proof
  assume "votes_key p = delegations_key q"
  then have "rev (votes_key p) = rev (delegations_key q)" by simp
  then show False by (simp add: votes_key_def delegations_key_def)
qed


lemma hget_hdel_same: "hget (hdel r key f) key f = None"
  by (simp add: hget_def hdel_def delete_conv')


section \<open>Mutual exclusion of vote and delegation\<close>

text \<open>
  C7. For every wallet and every prior store: after \<open>castVote\<close> the wallet's delegation reads
  as none, and after \<open>setDelegation\<close> the wallet's vote reads as none.
\<close>

theorem castVote_setDelegation_exclusive:
  "getUserDelegation (castVote r p w optionNumber) p w = None \<and>
   getUserVote (setDelegation r' p w d) p w = None"
  by (simp add: getUserDelegation_def getUserVote_def castVote_def setDelegation_def
      Let_def hget_hdel_same)

theorem castVote_setDelegation_exclusive_witness:
  "getUserDelegation
     (castVote (setDelegation empty_redis ''p1'' ''0xAb'' ''0xCd'') ''p1'' ''0xAb'' 2)
     ''p1'' ''0xAb'' = None \<and>
   getUserVote
     (setDelegation (castVote empty_redis ''p1'' ''0xAb'' 2) ''p1'' ''0xAb'' ''0xCd'')
     ''p1'' ''0xAb'' = None"
  by (rule castVote_setDelegation_exclusive)


section \<open>Removing a vote or a delegation\<close>

text \<open>
  C10. \<open>removeVote\<close> deletes only the wallet's field of the votes hash and
  \<open>removeDelegation\<close> only the wallet's field of the delegations hash: every other field,
  every other hash, every set (the participants among them) and every string key is
  unchanged. So a wallet that cast a vote and removed it, or delegated and removed the
  delegation, is still a participant and holds neither a vote nor a delegation.
\<close>

theorem removeVote_removeDelegation_frame:
  "map_of (hashes (removeVote r p w) (votes_key p)) =
     (map_of (hashes r (votes_key p)))(toLowerCase w := None) \<and>
   (\<forall>key. key \<noteq> votes_key p \<longrightarrow> hashes (removeVote r p w) key = hashes r key) \<and>
   sets (removeVote r p w) = sets r \<and>
   strings (removeVote r p w) = strings r \<and>
   map_of (hashes (removeDelegation r p w) (delegations_key p)) =
     (map_of (hashes r (delegations_key p)))(toLowerCase w := None) \<and>
   (\<forall>key. key \<noteq> delegations_key p \<longrightarrow> hashes (removeDelegation r p w) key = hashes r key) \<and>
   sets (removeDelegation r p w) = sets r \<and>
   strings (removeDelegation r p w) = strings r \<and>
   (let r' = removeVote (castVote r p w optionNumber) p w
    in toLowerCase w \<in> set (getAllParticipants r' p) \<and>
       getUserVote r' p w = None \<and> getUserDelegation r' p w = None) \<and>
   (let r' = removeDelegation (setDelegation r p w d) p w
    in toLowerCase w \<in> set (getAllParticipants r' p) \<and>
       getUserVote r' p w = None \<and> getUserDelegation r' p w = None)"
proof -
  have frame_vote:
    "map_of (hashes (removeVote r p w) (votes_key p)) =
       (map_of (hashes r (votes_key p)))(toLowerCase w := None)"
    "\<forall>key. key \<noteq> votes_key p \<longrightarrow> hashes (removeVote r p w) key = hashes r key"
    "sets (removeVote r p w) = sets r" "strings (removeVote r p w) = strings r"
    by (simp_all add: removeVote_def hdel_def delete_conv')
  have frame_delegation:
    "map_of (hashes (removeDelegation r p w) (delegations_key p)) =
       (map_of (hashes r (delegations_key p)))(toLowerCase w := None)"
    "\<forall>key. key \<noteq> delegations_key p \<longrightarrow> hashes (removeDelegation r p w) key = hashes r key"
    "sets (removeDelegation r p w) = sets r" "strings (removeDelegation r p w) = strings r"
    by (simp_all add: removeDelegation_def hdel_def delete_conv')
  have after_vote:
    "let r' = removeVote (castVote r p w optionNumber) p w
     in toLowerCase w \<in> set (getAllParticipants r' p) \<and>
        getUserVote r' p w = None \<and> getUserDelegation r' p w = None"
    by (simp add: Let_def getAllParticipants_def smembers_def getUserVote_def
        getUserDelegation_def removeVote_def castVote_def hget_def hdel_def sadd_def hset_def
        delete_conv' votes_key_neq_delegations_key votes_key_neq_delegations_key [symmetric])
  have after_delegation:
    "let r' = removeDelegation (setDelegation r p w d) p w
     in toLowerCase w \<in> set (getAllParticipants r' p) \<and>
        getUserVote r' p w = None \<and> getUserDelegation r' p w = None"
    by (simp add: Let_def getAllParticipants_def smembers_def getUserVote_def
        getUserDelegation_def removeDelegation_def setDelegation_def hget_def hdel_def sadd_def
        hset_def delete_conv' votes_key_neq_delegations_key
        votes_key_neq_delegations_key [symmetric])
  from frame_vote frame_delegation after_vote after_delegation show ?thesis
    by blast
qed

theorem removeVote_removeDelegation_frame_witness:
  "''proposal:p1:participants'' \<noteq> votes_key ''p1'' \<and>
   hashes (removeVote (castVote empty_redis ''p1'' ''0xAb'' 2) ''p1'' ''0xAb'')
     ''proposal:p1:participants'' = [] \<and>
   sets (removeVote (castVote empty_redis ''p1'' ''0xAb'' 2) ''p1'' ''0xAb'')
     ''proposal:p1:participants'' = [''0xab''] \<and>
   getUserVote (removeVote (castVote empty_redis ''p1'' ''0xAb'' 2) ''p1'' ''0xAb'')
     ''p1'' ''0xAb'' = None \<and>
   getUserDelegation (removeVote (castVote empty_redis ''p1'' ''0xAb'' 2) ''p1'' ''0xAb'')
     ''p1'' ''0xAb'' = None"
  using removeVote_removeDelegation_frame
    [of "castVote empty_redis ''p1'' ''0xAb'' 2" "''p1''" "''0xAb''" 2 "''0xCd''"]
    removeVote_removeDelegation_frame [of empty_redis "''p1''" "''0xAb''" 2 "''0xCd''"]
  by (simp add: Let_def votes_key_def castVote_def empty_redis_def sadd_def hdel_def hset_def
      participants_key_def delegations_key_def toLowerCase_def lower_char_def)


section \<open>Facts about the tally\<close>



lemma keys_init_tallies_aux:
  "fst ` set (fold (\<lambda>option tallies. AList.update (Num (option_number option)) 0 tallies)
     xs al) = fst ` set al \<union> (\<lambda>option. Num (option_number option)) ` set xs"
proof (induction xs arbitrary: al)
  case Nil
  then show ?case by simp
next
  case (Cons x xs)
  have "fst ` set (AList.update (Num (option_number x)) 0 al) =
      insert (Num (option_number x)) (fst ` set al)"
    using dom_update [of "Num (option_number x)" 0 al] by (simp add: dom_map_of_conv_image_fst)
  with Cons.IH [of "AList.update (Num (option_number x)) 0 al"] show ?case by auto
qed

lemma keys_init_tallies:
  "fst ` set (init_tallies proposalOptions) =
     (\<lambda>option. Num (option_number option)) ` set proposalOptions"
  by (simp add: init_tallies_def keys_init_tallies_aux)

lemma process_vote_step:
  "process_vote vp (wallet, voted) (tallies, breakdown, cast, voters) =
     (tallies', breakdown', cast', voters') \<Longrightarrow>
   map_of tallies' = (map_of tallies)(voted \<mapsto> tally tallies voted + power_or_one vp (toLowerCase wallet)) \<and>
   (distinct (map fst tallies) \<longrightarrow> distinct (map fst tallies')) \<and>
   cast' = cast + power_or_one vp (toLowerCase wallet)"
  by (auto simp: process_vote_def Let_def tally_def update_conv' distinct_update
      split: option.splits if_splits)

lemma process_votes_fold:
  "fold (process_vote vp) votes (tallies, breakdown, cast, voters) =
     (tallies', breakdown', cast', voters') \<Longrightarrow>
   (\<forall>opt. map_of tallies' opt =
      (if opt \<in> fst ` set tallies \<union> snd ` set votes
       then Some (tally tallies opt + cast_power_for vp votes opt) else None)) \<and>
   (distinct (map fst tallies) \<longrightarrow> distinct (map fst tallies')) \<and>
   cast' = cast + cast_power vp votes"
proof (induction votes arbitrary: tallies breakdown cast voters)
  case Nil
  then show ?case
    by (auto simp: cast_power_for_def cast_power_def tally_def map_of_eq_None_iff
        split: option.splits)
next
  case (Cons v votes)
  obtain wallet voted where v: "v = (wallet, voted)" by (cases v)
  obtain t1 b1 c1 u1 where
    step: "process_vote vp (wallet, voted) (tallies, breakdown, cast, voters) = (t1, b1, c1, u1)"
    by (metis prod_cases4)
  from process_vote_step [OF step] have
    m1: "map_of t1 = (map_of tallies)(voted \<mapsto> tally tallies voted + power_or_one vp (toLowerCase wallet))"
    and d1: "distinct (map fst tallies) \<longrightarrow> distinct (map fst t1)"
    and c1: "c1 = cast + power_or_one vp (toLowerCase wallet)"
    by blast+
  from Cons.prems v step have rest:
    "fold (process_vote vp) votes (t1, b1, c1, u1) = (tallies', breakdown', cast', voters')"
    by simp
  note IH = Cons.IH [OF rest]
  have keys1: "fst ` set t1 = insert voted (fst ` set tallies)"
    using arg_cong [OF m1, of dom] by (simp add: dom_map_of_conv_image_fst)
  have tally1: "\<And>opt. tally t1 opt =
      (if opt = voted then tally tallies voted + power_or_one vp (toLowerCase wallet)
       else tally tallies opt)"
    by (simp add: tally_def m1)
  have "\<forall>opt. map_of tallies' opt =
      (if opt \<in> fst ` set tallies \<union> snd ` set (v # votes)
       then Some (tally tallies opt + cast_power_for vp (v # votes) opt) else None)"
  proof
    fix opt
    from IH have "map_of tallies' opt =
      (if opt \<in> fst ` set t1 \<union> snd ` set votes
       then Some (tally t1 opt + cast_power_for vp votes opt) else None)"
      by blast
    then show "map_of tallies' opt =
      (if opt \<in> fst ` set tallies \<union> snd ` set (v # votes)
       then Some (tally tallies opt + cast_power_for vp (v # votes) opt) else None)"
      by (auto simp: keys1 tally1 v cast_power_for_def cast_power_def)
  qed
  moreover have "distinct (map fst tallies) \<longrightarrow> distinct (map fst tallies')"
    using IH d1 by blast
  moreover have "cast' = cast + cast_power vp (v # votes)"
    using IH c1 by (simp add: v cast_power_def)
  ultimately show ?case by blast
qed







lemma calculateWeightedResults_fields:
  "\<exists>tallies breakdown cast voters.
     fold (process_vote vp) votes (init_tallies opts, [], 0, 0) = (tallies, breakdown, cast, voters) \<and>
     optionTallies (calculateWeightedResults vp votes opts) = tallies \<and>
     totalVotesCast (calculateWeightedResults vp votes opts) = cast \<and>
     winningOption (calculateWeightedResults vp votes opts) = pick_winner tallies"
  by (cases "fold (process_vote vp) votes (init_tallies opts, [], 0, 0)")
    (simp add: calculateWeightedResults_def)




section \<open>Winner selection\<close>





section \<open>Votes for an option that the proposal does not declare\<close>

lemma power_le_cast_power_for:
  "(wallet, opt) \<in> set votes \<Longrightarrow>
   power_or_one vp (toLowerCase wallet) \<le> cast_power_for vp votes opt"
proof -
  assume "(wallet, opt) \<in> set votes"
  then have "power_or_one vp (toLowerCase wallet) \<in>
      set (map (\<lambda>(wallet, voted). power_or_one vp (toLowerCase wallet))
             (filter (\<lambda>(wallet, voted). voted = opt) votes))"
    by force
  then show ?thesis
    unfolding cast_power_for_def cast_power_def by (simp only: member_le_sum_list)
qed

lemma scenario_undeclared:
  "calculateWeightedResults [] [(''0xc'', Num 7)]
     [\<lparr>option_number = 1, option_text = ''yes''\<rparr>, \<lparr>option_number = 2, option_text = ''no''\<rparr>] =
   \<lparr>optionTallies = [(Num 1, 0), (Num 2, 0), (Num 7, 1)],
    voterBreakdown = [(''0xc'', 1, Num 7)],
    totalVotingPower = 0, totalVotesCast = 1, totalUniqueVoters = 1,
    winningOption = Some (Num 7)\<rparr>"
  by code_simp

text \<open>
  C9. A vote for an option number that is not in the declared option list gets a tally
  entry of its own; the entry holds the power of the votes cast for that option (so the
  voter's power is in it), the cast-power total holds the power of all votes, and such an
  option can win: with options 1 and 2 declared and one vote for option 7, the winning
  option is 7.
\<close>

theorem undeclared_option_tallied:
  "(let r = calculateWeightedResults votingPowers votes proposalOptions in
     ((wallet, opt) \<in> set votes \<and>
      opt \<notin> (\<lambda>option. Num (option_number option)) ` set proposalOptions \<longrightarrow>
        map_of (optionTallies r) opt = Some (cast_power_for votingPowers votes opt) \<and>
        power_or_one votingPowers (toLowerCase wallet) \<le> cast_power_for votingPowers votes opt) \<and>
     totalVotesCast r = cast_power votingPowers votes) \<and>
   (let declared = [\<lparr>option_number = 1, option_text = ''yes''\<rparr>,
                    \<lparr>option_number = 2, option_text = ''no''\<rparr>]
    in Num 7 \<notin> (\<lambda>option. Num (option_number option)) ` set declared \<and>
       winningOption (calculateWeightedResults [] [(''0xc'', Num 7)] declared) = Some (Num 7))"
proof -
  let ?r = "calculateWeightedResults votingPowers votes proposalOptions"
  obtain tallies breakdown cast voters where
    f: "fold (process_vote votingPowers) votes (init_tallies proposalOptions, [], 0, 0) =
          (tallies, breakdown, cast, voters)"
    and T: "optionTallies ?r = tallies" and C: "totalVotesCast ?r = cast"
    using calculateWeightedResults_fields [of votingPowers votes proposalOptions] by blast
  from process_votes_fold [OF f] have
    look: "\<And>k. map_of tallies k =
      (if k \<in> fst ` set (init_tallies proposalOptions) \<union> snd ` set votes
       then Some (tally (init_tallies proposalOptions) k + cast_power_for votingPowers votes k)
       else None)"
    and cast: "cast = cast_power votingPowers votes"
    by auto
  have entry: "(wallet, opt) \<in> set votes \<and>
      opt \<notin> (\<lambda>option. Num (option_number option)) ` set proposalOptions \<longrightarrow>
        map_of (optionTallies ?r) opt = Some (cast_power_for votingPowers votes opt) \<and>
        power_or_one votingPowers (toLowerCase wallet) \<le> cast_power_for votingPowers votes opt"
  proof
    assume h: "(wallet, opt) \<in> set votes \<and>
      opt \<notin> (\<lambda>option. Num (option_number option)) ` set proposalOptions"
    then have "opt \<in> snd ` set votes" by force
    moreover from h have "opt \<notin> fst ` set (init_tallies proposalOptions)"
      by (simp add: keys_init_tallies)
    then have "map_of (init_tallies proposalOptions) opt = None"
      by (simp add: map_of_eq_None_iff)
    then have "tally (init_tallies proposalOptions) opt = 0" by (simp add: tally_def)
    ultimately have "map_of tallies opt = Some (cast_power_for votingPowers votes opt)"
      using look [of opt] by simp
    with T h show "map_of (optionTallies ?r) opt = Some (cast_power_for votingPowers votes opt) \<and>
        power_or_one votingPowers (toLowerCase wallet) \<le> cast_power_for votingPowers votes opt"
      by (simp add: power_le_cast_power_for)
  qed
  have total: "totalVotesCast ?r = cast_power votingPowers votes"
    using C cast by simp
  have example: "Num 7 \<notin> (\<lambda>option. Num (option_number option)) `
        set [\<lparr>option_number = 1, option_text = ''yes''\<rparr>,
             \<lparr>option_number = 2, option_text = ''no''\<rparr>] \<and>
       winningOption (calculateWeightedResults [] [(''0xc'', Num 7)]
         [\<lparr>option_number = 1, option_text = ''yes''\<rparr>,
          \<lparr>option_number = 2, option_text = ''no''\<rparr>]) = Some (Num 7)"
    unfolding scenario_undeclared by simp
  from entry total example show ?thesis
    unfolding Let_def by blast
qed

theorem undeclared_option_tallied_witness:
  "(''0xc'', Num 7) \<in> set [(''0xc'', Num 7)] \<and>
   Num 7 \<notin> (\<lambda>option. Num (option_number option)) `
     set [\<lparr>option_number = 1, option_text = ''yes''\<rparr>,
          \<lparr>option_number = 2, option_text = ''no''\<rparr>] \<and>
   map_of (optionTallies (calculateWeightedResults [(''0xc'', 4)] [(''0xc'', Num 7)]
     [\<lparr>option_number = 1, option_text = ''yes''\<rparr>,
      \<lparr>option_number = 2, option_text = ''no''\<rparr>])) (Num 7) = Some 4 \<and>
   totalVotesCast (calculateWeightedResults [(''0xc'', 4)] [(''0xc'', Num 7)]
     [\<lparr>option_number = 1, option_text = ''yes''\<rparr>,
      \<lparr>option_number = 2, option_text = ''no''\<rparr>]) = 4"
proof -
  have p: "cast_power_for [(''0xc'', 4)] [(''0xc'', Num 7)] (Num 7) = 4"
    "cast_power [(''0xc'', 4)] [(''0xc'', Num 7)] = 4"
    by (simp_all add: cast_power_for_def cast_power_def power_or_one_def toLowerCase_def
        lower_char_def)
  note w = undeclared_option_tallied [where wallet = "''0xc''" and opt = "Num 7"
      and votingPowers = "[(''0xc'', 4)]" and votes = "[(''0xc'', Num 7)]"
      and proposalOptions = "[\<lparr>option_number = 1, option_text = ''yes''\<rparr>,
        \<lparr>option_number = 2, option_text = ''no''\<rparr>]", unfolded Let_def p]
  then show ?thesis by simp
qed


section \<open>Facts about chains and the detection loop\<close>

lemma chain_from_prefix:
  "chain_from m x xs \<Longrightarrow> chain_from m x ys \<Longrightarrow> length xs \<le> length ys \<Longrightarrow>
   take (length xs) ys = xs"
proof (induction xs arbitrary: x ys)
  case Nil
  then show ?case by simp
next
  case (Cons a xs)
  then obtain b ys' where ys: "ys = b # ys'" by (cases ys) auto
  with Cons.prems have ab: "a = b" and c1: "chain_from m a xs" and c2: "chain_from m a ys'"
    and len: "length xs \<le> length ys'" by simp_all
  from Cons.IH [OF c1 c2 len] ab ys show ?case by simp
qed

lemma chain_from_suffix: "chain_from m x (pre @ b # suf) \<Longrightarrow> chain_from m b suf"
  by (induction pre arbitrary: x) auto


lemma chain_from_distinct:
  "chain_from m x ys \<Longrightarrow> last (x # ys) \<notin> set (butlast (x # ys)) \<Longrightarrow> distinct (x # ys)"
proof (induction ys arbitrary: x)
  case Nil
  then show ?case by simp
next
  case (Cons y ys)
  from Cons.prems have chain: "chain_from m y ys" and step: "truthy_lookup m x = Some y"
    by simp_all
  from Cons.prems(2) have "last (y # ys) \<notin> set (butlast (y # ys))" by auto
  with Cons.IH chain have dist: "distinct (y # ys)" by blast
  have "x \<notin> set (y # ys)"
  proof
    assume "x \<in> set (y # ys)"
    then obtain pre suf where sp: "y # ys = pre @ x # suf" by (meson split_list)
    with Cons.prems(1) have "chain_from m x (pre @ x # suf)" by simp
    then have tail_chain: "chain_from m x suf" by (rule chain_from_suffix)
    have "take (length suf) (pre @ x # suf) = suf"
      by (rule chain_from_prefix [OF tail_chain]) (use Cons.prems(1) sp in auto)
    then have decomp: "pre @ x # suf = suf @ drop (length suf) (pre @ x # suf)"
      by (metis append_take_drop_id)
    define zs where "zs = drop (length suf) (pre @ x # suf)"
    have "length zs = Suc (length pre)" unfolding zs_def length_drop by simp
    then have zs: "zs \<noteq> []" by auto
    from decomp have whole: "x # y # ys = x # suf @ zs" by (simp add: zs_def sp)
    have "last (x # y # ys) = last (x # suf)" by (simp add: sp)
    then have "last (x # y # ys) \<in> set (x # suf)" by (metis last_in_set list.distinct(1))
    moreover have "butlast (x # y # ys) = x # suf @ butlast zs"
      using zs by (simp add: whole butlast_append)
    ultimately have "last (x # y # ys) \<in> set (butlast (x # y # ys))" by auto
    with Cons.prems(2) show False by simp
  qed
  with dist show ?case by simp
qed

lemma dfs_loop_reaches:
  "chain_from sim current rest \<Longrightarrow> rest \<noteq> [] \<Longrightarrow> last rest = delegator \<Longrightarrow>
   delegator \<notin> set (butlast rest) \<Longrightarrow> int (length rest) \<le> maxHops \<Longrightarrow>
   set (current # rest) \<inter> visited = {} \<Longrightarrow> distinct (current # rest) \<Longrightarrow>
   dfs_loop sim delegator visited walked current maxHops =
     Inl \<lparr>hasCycle = True, cyclePath = Some (walked @ rest),
          reason = Some (CircularDelegation (walked @ rest))\<rparr>"
proof (induction rest arbitrary: current visited walked maxHops)
  case Nil
  then show ?case by simp
next
  case (Cons y rest)
  from Cons.prems have step: "truthy_lookup sim current = Some y"
    and chain: "chain_from sim y rest" by simp_all
  from Cons.prems have pos: "maxHops > 0" by simp
  from Cons.prems have fresh: "current \<notin> visited" by auto
  show ?case
  proof (cases "rest = []")
    case True
    with Cons.prems have "y = delegator" by simp
    with step pos fresh True show ?thesis
      by (simp add: dfs_loop.simps [of sim delegator visited walked current maxHops])
  next
    case False
    with Cons.prems have ny: "y \<noteq> delegator" by auto
    have "dfs_loop sim delegator (insert current visited) (walked @ [y]) y (maxHops - 1) =
        Inl \<lparr>hasCycle = True, cyclePath = Some ((walked @ [y]) @ rest),
             reason = Some (CircularDelegation ((walked @ [y]) @ rest))\<rparr>"
    proof (rule Cons.IH [OF chain False])
      show "last rest = delegator" using Cons.prems False by simp
      show "delegator \<notin> set (butlast rest)" using Cons.prems False by simp
      show "int (length rest) \<le> maxHops - 1" using Cons.prems by simp
      show "set (y # rest) \<inter> insert current visited = {}" using Cons.prems by auto
      show "distinct (y # rest)" using Cons.prems by simp
    qed
    with step pos fresh ny show ?thesis
      by (simp add: dfs_loop.simps [of sim delegator visited walked current maxHops])
  qed
qed


section \<open>Self-delegation\<close>

text \<open>
  C6. For every wallet A and every store, \<open>detectCyclesDFS(p, A, A)\<close> reports a cycle with
  the path that holds A alone (the normalised wallet) and the reason "Cannot delegate to
  yourself"; the detection only reads the store, and the delegate route leaves the store
  exactly as it was when the target wallet is the caller's own wallet, whatever the rest
  of the request is.
\<close>

theorem self_delegation_rejected:
  "detectCyclesDFS r p A A =
     \<lparr>hasCycle = True, cyclePath = Some [toLowerCase A],
      reason = Some CannotDelegateToYourself\<rparr> \<and>
   snd (delegate_route r p A (req\<lparr>target_wallet := Some A\<rparr>) now) = r"
  by (simp add: detectCyclesDFS_def delegate_route_def Let_def split: option.splits)

theorem self_delegation_rejected_witness:
  "detectCyclesDFS (castVote empty_redis ''p1'' ''0xAb'' 1) ''p1'' ''0xAb'' ''0xAb'' =
     \<lparr>hasCycle = True, cyclePath = Some [''0xab''],
      reason = Some CannotDelegateToYourself\<rparr> \<and>
   delegate_route (castVote empty_redis ''p1'' ''0xAb'' 1) ''p1'' ''0xAb''
     \<lparr>proposal_id_ok = True, target_user_ok = True, access_failure = None,
      target_wallet = Some ''0xAb''\<rparr> ''1700000000000'' =
     (400, castVote empty_redis ''p1'' ''0xAb'' 1)"
proof -
  have l: "toLowerCase ''0xAb'' = ''0xab''"
    by (simp add: toLowerCase_def lower_char_def)
  have c: "\<not> checkCooldown (castVote empty_redis ''p1'' ''0xAb'' 1) ''0xAb'' ''p1''"
    by (simp add: checkCooldown_def get_def castVote_def Let_def hdel_def sadd_def hset_def
        empty_redis_def)
  note w = self_delegation_rejected [of "castVote empty_redis ''p1'' ''0xAb'' 1" "''p1''"
      "''0xAb''"
      "\<lparr>proposal_id_ok = True, target_user_ok = True, access_failure = None,
        target_wallet = None\<rparr>" "''1700000000000''", unfolded l]
  from w c show ?thesis
    by (simp add: delegate_route_def)
qed


section \<open>Closing a cycle\<close>

lemma chain_from_append: "chain_from m x (xs @ ys) \<Longrightarrow> chain_from m x xs"
  by (induction xs arbitrary: x) auto

text \<open>
  C4. Let the simulated map be the current delegations with the edge from the delegator
  to the target added. If following the simulated map from the target leads back to the
  delegator in at most 100 hops, \<open>detectCyclesDFS\<close> reports a cycle, and the path it
  reports is the walk itself: it starts at the target and ends where the delegator is
  reached for the first time. After A delegated to B, the attempt of B to delegate to A
  is therefore reported with the path A, B.
\<close>

theorem detectCyclesDFS_reports_cycle:
  assumes chain: "chain_from
      (map_of (simulatedDelegations r p (toLowerCase delegatorWallet) (toLowerCase targetWallet)))
      (toLowerCase targetWallet) rest"
    and back_at_delegator: "last (toLowerCase targetWallet # rest) = toLowerCase delegatorWallet"
    and within_limit: "length rest \<le> 100"
  shows "detectCyclesDFS r p delegatorWallet targetWallet =
     (let walked = takeWhile (\<lambda>w. w \<noteq> toLowerCase delegatorWallet)
                     (toLowerCase targetWallet # rest) @ [toLowerCase delegatorWallet]
      in \<lparr>hasCycle = True, cyclePath = Some walked,
          reason = Some (if length walked = 1 then CannotDelegateToYourself
                         else CircularDelegation walked)\<rparr>)"
proof (cases "toLowerCase delegatorWallet = toLowerCase targetWallet")
  case True
  then show ?thesis by (simp add: detectCyclesDFS_def Let_def)
next
  case False
  let ?d = "toLowerCase delegatorWallet"
  let ?t = "toLowerCase targetWallet"
  let ?sim = "map_of (simulatedDelegations r p ?d ?t)"
  from False back_at_delegator have ne: "rest \<noteq> []" and lst: "last rest = ?d"
    by (auto split: if_splits)
  then have "?d \<in> set rest" by (metis last_in_set)
  then obtain pre suf where sp: "rest = pre @ ?d # suf" and first: "?d \<notin> set pre"
    by (meson split_list_first)
  let ?walk = "pre @ [?d]"
  have "takeWhile (\<lambda>w. w \<noteq> ?d) (pre @ ?d # suf) = pre"
    using first by (induction pre) auto
  then have tw0: "takeWhile (\<lambda>w. w \<noteq> ?d) rest = pre" by (simp add: sp)
  then have tw: "takeWhile (\<lambda>w. w \<noteq> ?d) (?t # rest) = ?t # pre"
    using False by (simp add: sp)
  from chain sp have "chain_from ?sim ?t (?walk @ suf)" by simp
  then have c: "chain_from ?sim ?t ?walk" by (rule chain_from_append)
  have dist: "distinct (?t # ?walk)"
    by (rule chain_from_distinct [OF c]) (use False first in auto)
  have "dfs_loop ?sim ?d {} [?t] ?t 100 =
      Inl \<lparr>hasCycle = True, cyclePath = Some ([?t] @ ?walk),
           reason = Some (CircularDelegation ([?t] @ ?walk))\<rparr>"
  proof (rule dfs_loop_reaches [OF c])
    show "?walk \<noteq> []" by simp
    show "last ?walk = ?d" by simp
    show "?d \<notin> set (butlast ?walk)" using first by simp
    show "int (length ?walk) \<le> 100" using within_limit sp by simp
    show "set (?t # ?walk) \<inter> {} = {}" by simp
    show "distinct (?t # ?walk)" by (rule dist)
  qed
  with False show ?thesis
    by (simp add: detectCyclesDFS_def Let_def tw0)
qed

lemma lower_0xA: "toLowerCase ''0xA'' = ''0xa''" "toLowerCase ''0xB'' = ''0xb''"
  by (simp_all add: toLowerCase_def lower_char_def)

lemma scenario_cycle_map:
  "simulatedDelegations (setDelegation empty_redis ''p1'' ''0xA'' ''0xB'') ''p1'' ''0xb'' ''0xa'' =
     [(''0xa'', ''0xb''), (''0xb'', ''0xa'')]"
  by (simp add: simulatedDelegations_def getAllDelegations_def hgetall_def setDelegation_def
      Let_def hdel_def sadd_def hset_def empty_redis_def lower_0xA votes_key_neq_delegations_key
      votes_key_neq_delegations_key [symmetric] toLowerCase_def lower_char_def)

theorem detectCyclesDFS_reports_cycle_witness:
  "detectCyclesDFS (setDelegation empty_redis ''p1'' ''0xA'' ''0xB'') ''p1'' ''0xB'' ''0xA'' =
     \<lparr>hasCycle = True, cyclePath = Some [''0xa'', ''0xb''],
      reason = Some (CircularDelegation [''0xa'', ''0xb''])\<rparr>"
proof -
  have c: "chain_from
      (map_of (simulatedDelegations (setDelegation empty_redis ''p1'' ''0xA'' ''0xB'') ''p1''
         (toLowerCase ''0xB'') (toLowerCase ''0xA'')))
      (toLowerCase ''0xA'') [''0xb'']"
    by (simp add: lower_0xA scenario_cycle_map truthy_lookup_def)
  have l: "last (toLowerCase ''0xA'' # [''0xb'']) = toLowerCase ''0xB''"
    by (simp add: lower_0xA)
  have n: "length [''0xb''] \<le> 100" by simp
  from detectCyclesDFS_reports_cycle [OF c l n] show ?thesis
    by (simp add: lower_0xA Let_def)
qed

theorem cycle_path_order_counterexample:
  "cyclePath (detectCyclesDFS (setDelegation empty_redis ''p1'' ''0xa'' ''0xb'')
      ''p1'' ''0xb'' ''0xa'') = Some [''0xa'', ''0xb''] \<and>
   cyclePath (detectCyclesDFS (setDelegation empty_redis ''p1'' ''0xa'' ''0xb'')
      ''p1'' ''0xb'' ''0xa'') \<noteq> Some [''0xb'', ''0xa'']"
  by code_simp


section \<open>Facts about chain resolution\<close>

lemma chain_from_snoc:
  "chain_from m x (ys @ [z]) \<longleftrightarrow>
     chain_from m x ys \<and> truthy_lookup m (last (x # ys)) = Some z"
  by (induction ys arbitrary: x) auto

lemma chain_from_reaches:
  "chain_from m x ys \<Longrightarrow> y \<in> set (x # ys) \<Longrightarrow> (y, last (x # ys)) \<in> (delegation_edges m)\<^sup>*"
proof (induction ys arbitrary: x y)
  case Nil
  then show ?case by simp
next
  case (Cons a ys)
  from Cons.prems have step: "(x, a) \<in> delegation_edges m" and rest: "chain_from m a ys"
    by (simp_all add: delegation_edges_def)
  show ?case
  proof (cases "y = x")
    case True
    from Cons.IH [OF rest, of a] have "(a, last (a # ys)) \<in> (delegation_edges m)\<^sup>*" by simp
    with step True show ?thesis by (simp add: converse_rtrancl_into_rtrancl)
  next
    case False
    with Cons.prems have "y \<in> set (a # ys)" by simp
    from Cons.IH [OF rest this] show ?thesis by simp
  qed
qed

lemma resolve_loop_props:
  "resolve_loop d p vis cur steps = (c, p') \<Longrightarrow> p \<noteq> [] \<Longrightarrow> last p = cur \<Longrightarrow>
   chain_from d (hd p) (tl p) \<Longrightarrow> vis = set p \<Longrightarrow> length p = steps + 1 \<Longrightarrow> steps \<le> 100 \<Longrightarrow>
   p' \<noteq> [] \<and> last p' = c \<and> hd p' = hd p \<and> chain_from d (hd p') (tl p') \<and> length p' \<le> 101 \<and>
   (truthy_lookup d c = None \<or> length p' = 101 \<or>
    (\<exists>n. truthy_lookup d c = Some n \<and> n \<in> set p'))"
proof (induction d p vis cur steps rule: resolve_loop.induct)
  case (1 delegs p visited current steps)
  note run0 = "1.prems"(1)
  note unfold = resolve_loop.simps [of delegs p visited current steps]
  show ?case
  proof (cases "steps < MAX_CHAIN_LENGTH")
    case False
    with run0 have "c = current" "p' = p"
      by (simp_all add: unfold)
    moreover from False "1.prems" have "length p = 101" by (simp add: MAX_CHAIN_LENGTH_def)
    ultimately show ?thesis using "1.prems" by simp
  next
    case True
    show ?thesis
    proof (cases "truthy_lookup delegs current")
      case None
      with True run0 have "c = current" "p' = p"
        by (simp_all add: unfold)
      with None "1.prems" show ?thesis by simp
    next
      case (Some nextDelegate)
      show ?thesis
      proof (cases "nextDelegate \<in> visited")
        case in_visited: True
        with True Some run0 have "c = current" "p' = p"
          by (simp_all add: unfold)
        with Some in_visited "1.prems" show ?thesis by simp
      next
        case False
        with True Some run0 have run:
          "resolve_loop delegs (p @ [nextDelegate]) (insert nextDelegate visited) nextDelegate
             (steps + 1) = (c, p')"
          by (simp add: unfold)
        have chain': "chain_from delegs (hd (p @ [nextDelegate])) (tl (p @ [nextDelegate]))"
        proof -
          from "1.prems" have "hd p # tl p = p" by simp
          with "1.prems" Some have "truthy_lookup delegs (last (hd p # tl p)) = Some nextDelegate"
            by simp
          with "1.prems" show ?thesis by (simp add: chain_from_snoc)
        qed
        have "p' \<noteq> [] \<and> last p' = c \<and> hd p' = hd (p @ [nextDelegate]) \<and>
            chain_from delegs (hd p') (tl p') \<and> length p' \<le> 101 \<and>
            (truthy_lookup delegs c = None \<or> length p' = 101 \<or>
             (\<exists>n. truthy_lookup delegs c = Some n \<and> n \<in> set p'))"
        proof (rule "1.IH" [OF True Some False run])
          show "p @ [nextDelegate] \<noteq> []" by simp
          show "last (p @ [nextDelegate]) = nextDelegate" by simp
          show "chain_from delegs (hd (p @ [nextDelegate])) (tl (p @ [nextDelegate]))"
            by (rule chain')
          show "insert nextDelegate visited = set (p @ [nextDelegate])"
            using "1.prems" by simp
          show "length (p @ [nextDelegate]) = steps + 1 + 1" using "1.prems" by simp
          show "steps + 1 \<le> 100" using True by (simp add: MAX_CHAIN_LENGTH_def)
        qed
        with "1.prems"(2) show ?thesis by auto
      qed
    qed
  qed
qed

lemma wallet_name_inj: "wallet_name i = wallet_name j \<longleftrightarrow> i = j"
proof
  assume "wallet_name i = wallet_name j"
  then have "length (wallet_name i) = length (wallet_name j)" by simp
  then show "i = j" by (simp add: wallet_name_def)
qed simp

lemma long_chain_lookup:
  "map_of long_chain (wallet_name n) = (if n < 101 then Some (wallet_name (Suc n)) else None)"
proof (cases "n < 101")
  case True
  have "distinct (map fst long_chain)"
    by (simp add: long_chain_def comp_def distinct_map inj_on_def wallet_name_inj)
  moreover from True have "(wallet_name n, wallet_name (Suc n)) \<in> set long_chain"
    by (auto simp: long_chain_def)
  ultimately show ?thesis using True by simp
next
  case False
  then have "wallet_name n \<notin> fst ` set long_chain"
    by (auto simp: long_chain_def wallet_name_inj)
  with False show ?thesis by (simp add: map_of_eq_None_iff)
qed

lemma long_chain_step:
  "truthy_lookup (map_of long_chain) (wallet_name n) =
     (if n < 101 then Some (wallet_name (Suc n)) else None)"
proof -
  have "wallet_name (Suc n) \<noteq> []" by (simp add: wallet_name_def)
  then show ?thesis by (simp add: truthy_lookup_def long_chain_lookup)
qed

lemma long_chain_edge_length:
  "(x, y) \<in> delegation_edges (map_of long_chain) \<Longrightarrow> length y = Suc (length x)"
proof -
  assume "(x, y) \<in> delegation_edges (map_of long_chain)"
  then have "map_of long_chain x = Some y"
    by (auto simp: delegation_edges_def truthy_lookup_def split: option.splits if_splits)
  then have "(x, y) \<in> set long_chain" by (rule map_of_SomeD)
  then show ?thesis by (auto simp: long_chain_def wallet_name_def)
qed

lemma long_chain_acyclic: "acyclic (delegation_edges (map_of long_chain))"
proof -
  have "acyclic ((delegation_edges (map_of long_chain))\<inverse>)"
    by (rule acyclicI_order [where f = length]) (auto dest: long_chain_edge_length)
  then show ?thesis by simp
qed

lemma resolve_loop_long_chain:
  "k \<le> 100 \<Longrightarrow>
   resolve_loop (map_of long_chain) (map wallet_name [0 ..< Suc k]) (wallet_name ` {0 .. k})
     (wallet_name k) k = (wallet_name 100, map wallet_name [0 ..< 101])"
proof (induction "100 - k" arbitrary: k)
  case 0
  then have "k = 100" by simp
  then show ?case
    by (simp add: resolve_loop.simps [of _ _ _ _ 100] MAX_CHAIN_LENGTH_def)
next
  case (Suc m)
  then have k: "k < 100" by simp
  have fresh: "wallet_name (Suc k) \<notin> wallet_name ` {0 .. k}"
    by (auto simp: wallet_name_inj)
  have "resolve_loop (map_of long_chain) (map wallet_name [0 ..< Suc (Suc k)])
      (wallet_name ` {0 .. Suc k}) (wallet_name (Suc k)) (Suc k) =
      (wallet_name 100, map wallet_name [0 ..< 101])"
    by (rule Suc.hyps(1)) (use Suc.hyps(2) k in simp_all)
  moreover have "insert (wallet_name (Suc k)) (wallet_name ` {0 .. k}) = wallet_name ` {0 .. Suc k}"
    by (simp add: atLeastAtMostSuc_conv)
  ultimately show ?case
    using k fresh
    by (simp add: resolve_loop.simps [of _ _ _ "wallet_name k" k] MAX_CHAIN_LENGTH_def
        long_chain_step)
qed


section \<open>Chain resolution ends at a sink or at the hop limit\<close>

text \<open>
  C5. For every acyclic delegation map and every start wallet, \<open>resolveChainForUser\<close>
  returns; the path it records starts at the wallet, follows the delegations, ends at the
  final delegate, and holds at most 101 wallets (the start and at most 100 hops). The
  final delegate is a sink (it has no outgoing delegation) unless the walk was cut at the
  hop limit, in which case the path holds exactly 101 wallets.
\<close>

theorem resolveChainForUser_bounded:
  assumes acyc: "acyclic (delegation_edges delegs)"
  shows "(let res = resolveChainForUser w delegs in
     chain_length res = length (path res) \<and>
     hd (path res) = w \<and> chain_from delegs w (tl (path res)) \<and>
     last (path res) = finalDelegate res \<and>
     length (path res) \<le> 101 \<and>
     (truthy_lookup delegs (finalDelegate res) = None \<or> length (path res) = 101))"
proof -
  obtain c p' where run: "resolve_loop delegs [w] {w} w 0 = (c, p')"
    by (cases "resolve_loop delegs [w] {w} w 0")
  from resolve_loop_props [OF run] have
    ne: "p' \<noteq> []" and lst: "last p' = c" and hd: "hd p' = w"
    and chain: "chain_from delegs (hd p') (tl p')" and len: "length p' \<le> 101"
    and exit: "truthy_lookup delegs c = None \<or> length p' = 101 \<or>
      (\<exists>n. truthy_lookup delegs c = Some n \<and> n \<in> set p')"
    by auto
  have no_revisit: "\<not> (\<exists>n. truthy_lookup delegs c = Some n \<and> n \<in> set p')"
  proof
    assume "\<exists>n. truthy_lookup delegs c = Some n \<and> n \<in> set p'"
    then obtain n where edge: "truthy_lookup delegs c = Some n" and seen: "n \<in> set p'"
      by blast
    from ne have whole: "hd p' # tl p' = p'" by simp
    with seen have "n \<in> set (hd p' # tl p')" by simp
    from chain_from_reaches [OF chain this] whole lst
    have "(n, c) \<in> (delegation_edges delegs)\<^sup>*" by simp
    moreover from edge have "(c, n) \<in> delegation_edges delegs"
      by (simp add: delegation_edges_def)
    ultimately have "(n, n) \<in> (delegation_edges delegs)\<^sup>+" by (rule rtrancl_into_trancl1)
    with acyc show False by (simp add: acyclic_def)
  qed
  with exit have "truthy_lookup delegs c = None \<or> length p' = 101" by blast
  with lst hd chain len show ?thesis
    by (simp add: resolveChainForUser_def run Let_def)
qed

lemma short_chain_edges:
  "delegation_edges (map_of [(''0xa'', ''0xb''), (''0xb'', ''0xc'')]) =
     {(''0xa'', ''0xb''), (''0xb'', ''0xc'')}"
  by (auto simp: delegation_edges_def truthy_lookup_def split: if_splits)

lemma short_chain_acyclic:
  "acyclic (delegation_edges (map_of [(''0xa'', ''0xb''), (''0xb'', ''0xc'')]))"
proof -
  have "acyclic ({} :: (string \<times> string) set)" by (simp add: acyclic_def)
  then show ?thesis unfolding short_chain_edges by (simp add: rtrancl_insert)
qed

theorem resolveChainForUser_bounded_witness:
  "resolveChainForUser ''0xa'' (map_of [(''0xa'', ''0xb''), (''0xb'', ''0xc'')]) =
     \<lparr>finalDelegate = ''0xc'', path = [''0xa'', ''0xb'', ''0xc''], chain_length = 3\<rparr> \<and>
   truthy_lookup (map_of [(''0xa'', ''0xb''), (''0xb'', ''0xc'')]) ''0xc'' = None"
proof -
  have e: "resolveChainForUser ''0xa'' (map_of [(''0xa'', ''0xb''), (''0xb'', ''0xc'')]) =
     \<lparr>finalDelegate = ''0xc'', path = [''0xa'', ''0xb'', ''0xc''], chain_length = 3\<rparr>"
    by (simp add: resolveChainForUser_def resolve_loop.simps MAX_CHAIN_LENGTH_def
        truthy_lookup_def)
  from resolveChainForUser_bounded [OF short_chain_acyclic, of "''0xa''"] e show ?thesis
    by (simp add: Let_def)
qed

theorem chain_limit_counterexample:
  "acyclic (delegation_edges (map_of long_chain)) \<and>
   map_of long_chain ''a'' = Some ''aa'' \<and>
   finalDelegate (resolveChainForUser ''a'' (map_of long_chain)) = wallet_name 100 \<and>
   truthy_lookup (map_of long_chain) (wallet_name 100) = Some (wallet_name 101) \<and>
   length (path (resolveChainForUser ''a'' (map_of long_chain))) = 101"
proof -
  have a: "wallet_name 0 = ''a''" "wallet_name (Suc 0) = ''aa''"
    by (simp_all add: wallet_name_def)
  have "resolve_loop (map_of long_chain) (map wallet_name [0 ..< Suc 0]) (wallet_name ` {0 .. 0})
     (wallet_name 0) 0 = (wallet_name 100, map wallet_name [0 ..< 101])"
    by (rule resolve_loop_long_chain) simp
  then have "resolve_loop (map_of long_chain) [''a''] {''a''} ''a'' 0 =
      (wallet_name 100, map wallet_name [0 ..< 101])"
    by (simp add: a)
  then have "finalDelegate (resolveChainForUser ''a'' (map_of long_chain)) = wallet_name 100"
    and "length (path (resolveChainForUser ''a'' (map_of long_chain))) = 101"
    by (simp_all add: resolveChainForUser_def)
  moreover have "map_of long_chain ''a'' = Some ''aa''"
    using long_chain_lookup [of 0] by (simp add: a)
  moreover have "truthy_lookup (map_of long_chain) (wallet_name 100) = Some (wallet_name 101)"
    using long_chain_step [of 100] by simp
  ultimately show ?thesis using long_chain_acyclic by simp
qed


section \<open>Facts about the voting powers\<close>



















section \<open>Sum of the voting powers\<close>






section \<open>No tally without a completed resolution\<close>

text \<open>
  C8. When the proposal has no resolution record with status \<open>completed\<close>,
  \<open>calculateFinalResults\<close> returns the failure "No delegation resolution found" without
  reading votes or options, and the tally record it leaves for the proposal has status
  \<open>error\<close>, total voting power 0, total votes cast 0 and no winning option; every other
  record of the durable store is as before, so no \<open>completed\<close> tally record is written.
\<close>

theorem no_resolution_no_tally:
  assumes "\<not> has_completed_resolution db p"
  shows "calculateFinalResults db r p now elapsed =
     (TallyFailure ''No delegation resolution found - cannot proceed with vote counting'' elapsed,
      db\<lparr>final_vote_results_audit := (final_vote_results_audit db)
           (p \<mapsto> \<lparr>vote_results =
                      VoteError ''No delegation resolution found - cannot proceed with vote counting'' p,
                    computation_time_ms = elapsed,
                    total_voting_power = 0,
                    total_votes_cast = 0,
                    winning_option = None,
                    status = ''error'',
                    error_message =
                      Some ''No delegation resolution found - cannot proceed with vote counting''\<rparr>)\<rparr>)"
proof -
  from assms have "loadVotingPowers db p = None"
    by (auto simp: has_completed_resolution_def loadVotingPowers_def split: option.splits)
  then show ?thesis
    by (simp add: calculateFinalResults_def saveErrorAudit_def)
qed

theorem no_resolution_no_tally_witness:
  "fst (calculateFinalResults scenario_database scenario_store ''p1''
          ''2025-01-02T00:00:00.000Z'' 7) =
     TallyFailure ''No delegation resolution found - cannot proceed with vote counting'' 7 \<and>
   map_option status (final_vote_results_audit
     (snd (calculateFinalResults scenario_database scenario_store ''p1''
             ''2025-01-02T00:00:00.000Z'' 7)) ''p1'') = Some ''error'' \<and>
   map_option total_voting_power (final_vote_results_audit
     (snd (calculateFinalResults scenario_database scenario_store ''p1''
             ''2025-01-02T00:00:00.000Z'' 7)) ''p1'') = Some 0"
proof -
  have "\<not> has_completed_resolution scenario_database ''p1''"
    by (simp add: has_completed_resolution_def scenario_database_def empty_database_def)
  from no_resolution_no_tally [OF this, of scenario_store "''2025-01-02T00:00:00.000Z''" 7]
  show ?thesis by simp
qed


section \<open>Snapshot and restore\<close>

text \<open>
  C1. The round trip does not succeed. \<open>createSnapshot\<close> stores the votes, delegations
  and participants at the top level of the row's data, and \<open>restoreFromSnapshot\<close> reads
  them below a \<open>data\<close> property that the stored value does not have. For every store,
  proposal and snapshot type, restoring the snapshot just taken (as the latest one, or by
  its id) returns the failure "Invalid snapshot data structure"; the store is not written
  at all, so it still holds what it held.
\<close>

theorem snapshot_restore_round_trip_fails:
  "restoreFromSnapshot
     (snd (createSnapshot empty_database r p snapshotType now new_id taken_at)) r p None =
     (RestoreFailure ''Invalid snapshot data structure'', r) \<and>
   restoreFromSnapshot
     (snd (createSnapshot empty_database r p snapshotType now new_id taken_at)) r p (Some new_id) =
     (RestoreFailure ''Invalid snapshot data structure'', r)"
  by (simp add: restoreFromSnapshot_def createSnapshot_def find_snapshot_def latest_row_def
      empty_database_def js_get_def js_truthy_def Let_def)

end
